theory Spec2Isabelle
  imports Main
begin

section \<open>The help queue of \<open>src/queue.ts\<close>\<close>

text \<open>
  The file \<open>queue.ts\<close> holds two classes: \<open>HelpQueue\<close>, the waiting line of one
  channel, and \<open>HelpQueueDisplayManager\<close>, which keeps the pinned message that shows
  the line. Both are embedded here with explicit state passing. What a method does to
  its collaborators (direct messages, calls into the member registry, calls of the
  display manager, console output) is appended to a list carried in the state, so that
  "was called" and "was sent" are facts about that list. Whether the platform
  fulfils or rejects the promises that \<open>Enqueue\<close> and \<open>Dequeue\<close> await before they
  return is an argument of these two methods (\<open>platform\<close>, below).
\<close>

subsection \<open>Members, errors and effects\<close>

text \<open>
  A \<open>GuildMember\<close> is an object of the chat platform. The code compares members by
  object identity (\<open>==\<close>, \<open>Set.has\<close>); \<open>member_ref\<close> stands for that identity, and the
  two other fields are the attributes the code reads (\<open>member.user.id\<close>,
  \<open>member.user.username\<close>).
\<close>

datatype GuildMember = GuildMember (member_ref: nat) (user_id: string) (username: string)

text \<open>
  \<open>UserError\<close> is the exception class of \<open>user_action_error.ts\<close>; \<open>Dequeue\<close> throws it
  with the text \<open>Empty queue\<close>. \<open>MembershipRejected\<close> is the registry's refusal (below).
  \<open>PromiseRejected\<close> is what an \<open>await\<close> throws when the platform rejects the promise
  awaited.
\<close>

datatype error = UserError string | MembershipRejected | PromiseRejected

datatype effect =
    TryAddToQueue_call GuildMember string
  | TryRemoveFromQueue_call GuildMember string
  | send GuildMember string
  | OnQueueUpdate_call string bool "GuildMember list"
  | EnsureQueueSafe_call

subsection \<open>JavaScript sets\<close>

text \<open>
  A JavaScript \<open>Set\<close> holds each element once and iterates in insertion order. It is a
  list without repetition: \<open>add\<close> appends an element that is not there, \<open>delete\<close>
  removes it, \<open>size\<close> is the length.
\<close>

definition Set_has :: "'a \<Rightarrow> 'a list \<Rightarrow> bool" where
  "Set_has x xs = (x \<in> set xs)"

definition Set_add :: "'a \<Rightarrow> 'a list \<Rightarrow> 'a list" where
  "Set_add x xs = (if x \<in> set xs then xs else xs @ [x])"

definition Set_delete :: "'a \<Rightarrow> 'a list \<Rightarrow> 'a list" where
  "Set_delete x xs = filter (\<lambda>y. y \<noteq> x) xs"

definition Set_size :: "'a list \<Rightarrow> nat" where
  "Set_size xs = length xs"

subsection \<open>The member registry\<close>

text \<open>
  Modelled from the spec: \<open>MemberStateManager.GetMemberState\<close> and the class
  \<open>MemberState\<close> live in \<open>member_state_manager.ts\<close>, which \<open>queue.ts\<close> imports and
  which is not among the sources. The specification describes the registry as handing
  out one state per member ("GetOrCreateState", an "opaque token used for membership
  tests") and as the place that "tracks which queue(s) a member occupies". So the
  registry is a table from members to the name of the queue they occupy, and a
  member's \<open>MemberState\<close> is identified with the member.
\<close>

type_synonym MemberStateManager = "GuildMember \<Rightarrow> string option"

text \<open>
  Modelled from the spec: \<open>MemberState.TryAddToQueue\<close>, missing with
  \<open>member_state_manager.ts\<close>. The specification has the registry "enforce: a member
  may be in at most one queue at a time", and the members of a queue have "no
  duplicates (enforced by the external per-member state registry)": a member who
  occupies a queue is refused (the call throws), any other member is recorded as
  occupying the queue.
\<close>

definition TryAddToQueue ::
  "string \<Rightarrow> GuildMember \<Rightarrow> MemberStateManager \<Rightarrow> error + MemberStateManager" where
  "TryAddToQueue q m reg =
     (case reg m of
        Some _ \<Rightarrow> Inl MembershipRejected
      | None \<Rightarrow> Inr (reg(m := Some q)))"

text \<open>
  Modelled from the spec: \<open>MemberState.TryRemoveFromQueue\<close>, missing with
  \<open>member_state_manager.ts\<close>. By the specification \<open>Remove\<close> "removes member's
  registry association with this queue [...] (no-op on absence)": the association
  with the given queue is dropped, and nothing happens when there is none.
\<close>

definition TryRemoveFromQueue ::
  "string \<Rightarrow> GuildMember \<Rightarrow> MemberStateManager \<Rightarrow> MemberStateManager" where
  "TryRemoveFromQueue q m reg = (if reg m = Some q then reg(m := None) else reg)"

subsection \<open>The class \<open>HelpQueue\<close>\<close>

text \<open>
  The fields of the class, with the registry's table in place of the reference to the
  registry, and with the effects on the outside and the console in place of the
  reference to the display manager and of the process's console.
\<close>

record HelpQueue =
  queue :: "GuildMember list"
  name :: string
  helpers :: "GuildMember list"
  notif_queue :: "GuildMember list"
  member_state_manager :: MemberStateManager
  effects :: "effect list"
  console :: "string list"

text \<open>The constructor: the three collections start empty.\<close>

definition HelpQueue_new :: "string \<Rightarrow> MemberStateManager \<Rightarrow> HelpQueue" where
  "HelpQueue_new nm reg =
     \<lparr>queue = [], name = nm, helpers = [], notif_queue = [],
      member_state_manager = reg, effects = [], console = []\<rparr>"

definition length_of :: "HelpQueue \<Rightarrow> nat" where
  "length_of s = length (queue s)"

definition is_open :: "HelpQueue \<Rightarrow> bool" where
  "is_open s = (Set_size (helpers s) > 0)"

definition Has :: "GuildMember \<Rightarrow> HelpQueue \<Rightarrow> bool" where
  "Has m s = (find (\<lambda>queue_member. queue_member = m) (queue s) \<noteq> None)"

definition emit :: "effect list \<Rightarrow> HelpQueue \<Rightarrow> HelpQueue" where
  "emit es s = s\<lparr>effects := effects s @ es\<rparr>"

text \<open>
  \<open>UpdateDisplay\<close> hands the queue and its member list to the display manager, which
  reads the name, \<open>is_open\<close> and the members (see \<open>OnQueueUpdate\<close> below).
\<close>

definition UpdateDisplay :: "HelpQueue \<Rightarrow> HelpQueue" where
  "UpdateDisplay s = emit [OnQueueUpdate_call (name s) (is_open s) (queue s)] s"

definition EnsureQueueSafe_of :: "HelpQueue \<Rightarrow> HelpQueue" where
  "EnsureQueueSafe_of s = emit [EnsureQueueSafe_call] s"

definition Clear :: "HelpQueue \<Rightarrow> HelpQueue" where
  "Clear s =
     (let s1 = fold (\<lambda>m st. emit [TryRemoveFromQueue_call m (name st)]
                       (st\<lparr>member_state_manager :=
                             TryRemoveFromQueue (name st) m (member_state_manager st)\<rparr>))
                    (queue s) s;
          s2 = s1\<lparr>queue := []\<rparr>
      in UpdateDisplay s2)"

definition open_text :: "string \<Rightarrow> string" where
  "open_text nm = ''Hey! The `'' @ nm @ ''` queue is now open!''"

definition NotifyUsers :: "HelpQueue \<Rightarrow> HelpQueue" where
  "NotifyUsers s =
     (if Set_size (notif_queue s) = 0 then s
      else (emit (map (\<lambda>m. send m (open_text (name s))) (notif_queue s)) s)
             \<lparr>notif_queue := []\<rparr>)"

definition AddHelper :: "GuildMember \<Rightarrow> bool \<Rightarrow> HelpQueue \<Rightarrow> HelpQueue" where
  "AddHelper m mute_notifs s =
     (if Set_has m (helpers s) then
        s\<lparr>console := console s @
            [''Queue '' @ name s @ '' already has helper '' @ username m @
             ''. Ignoring call to AddHelper'']\<rparr>
      else
        let s1 = s\<lparr>helpers := Set_add m (helpers s)\<rparr>;
            s2 = (if Set_size (helpers s1) = 1 \<and> mute_notifs \<noteq> True
                  then NotifyUsers s1 else s1)
        in UpdateDisplay s2)"

definition RemoveHelper :: "GuildMember \<Rightarrow> HelpQueue \<Rightarrow> HelpQueue" where
  "RemoveHelper m s =
     (if \<not> Set_has m (helpers s) then
        s\<lparr>console := console s @
            [''Queue '' @ name s @ '' does not have helper '' @ username m @
             ''. Ignoring call to RemoveHelper'']\<rparr>
      else UpdateDisplay (s\<lparr>helpers := Set_delete m (helpers s)\<rparr>))"

definition joined_text :: "GuildMember \<Rightarrow> string \<Rightarrow> string" where
  \<open>joined_text m nm = ''Heads up! <@'' @ user_id m @ ''> has joined "'' @ nm @ ''".''\<close>

text \<open>
  What the platform does with the promises that a method awaits: the members whose
  direct message it rejects (\<open>helper.send\<close> for a member who cannot be written to),
  and whether it rejects the display update (the promise of \<open>OnQueueUpdate\<close>: a
  rejected \<open>send\<close> or \<open>pin\<close>, or a rejected \<open>edit\<close>, which the \<open>catch()\<close> without
  a handler passes on). \<open>delivers\<close> is the platform that fulfils them all.
\<close>

record platform =
  failed_sends :: "GuildMember list"
  update_rejected :: bool

definition delivers :: platform where
  "delivers = \<lparr>failed_sends = [], update_rejected = False\<rparr>"

text \<open>
  \<open>await this.UpdateDisplay()\<close> as the last statement before a method returns \<open>r\<close>:
  the display manager is called, and the method throws when the promise is rejected.
\<close>

definition await_UpdateDisplay ::
  "platform \<Rightarrow> 'a \<Rightarrow> HelpQueue \<Rightarrow> (error + 'a) \<times> HelpQueue" where
  "await_UpdateDisplay p r s =
     (if update_rejected p then Inl PromiseRejected else Inr r, UpdateDisplay s)"

text \<open>
  \<open>Enqueue\<close>: the registry is asked first; when it refuses, the exception leaves the
  method before \<open>push\<close>. Otherwise the member's state is pushed. When the line was
  empty before, \<open>send\<close> is called for every helper and \<open>Promise.all\<close> of the results
  is awaited: if one of them is rejected the method throws there, after the push and
  before the display update. Then the display update is awaited.
\<close>

definition Enqueue :: "platform \<Rightarrow> GuildMember \<Rightarrow> HelpQueue \<Rightarrow> (error + unit) \<times> HelpQueue" where
  "Enqueue p m s =
     (let s0 = emit [TryAddToQueue_call m (name s)] s in
      case TryAddToQueue (name s) m (member_state_manager s) of
        Inl e \<Rightarrow> (Inl e, s0)
      | Inr reg \<Rightarrow>
          let s1 = s0\<lparr>member_state_manager := reg\<rparr>;
              s2 = s1\<lparr>queue := queue s1 @ [m]\<rparr>
          in if length (queue s2) = 1 then
               let s3 = emit (map (\<lambda>helper. send helper (joined_text m (name s2)))
                                  (helpers s2)) s2
               in if list_ex (\<lambda>helper. helper \<in> set (failed_sends p)) (helpers s2)
                  then (Inl PromiseRejected, s3)
                  else await_UpdateDisplay p () s3
             else await_UpdateDisplay p () s2)"

definition Remove :: "GuildMember \<Rightarrow> HelpQueue \<Rightarrow> HelpQueue" where
  "Remove m s =
     (let s1 = emit [TryRemoveFromQueue_call m (name s)]
                 (s\<lparr>member_state_manager :=
                      TryRemoveFromQueue (name s) m (member_state_manager s)\<rparr>);
          s2 = s1\<lparr>queue := filter (\<lambda>waiting_user. waiting_user \<noteq> m) (queue s1)\<rparr>
      in UpdateDisplay s2)"

text \<open>
  \<open>Dequeue\<close>: \<open>shift\<close> on an empty array returns \<open>undefined\<close> and changes nothing, and
  the method throws; otherwise the head has left the array before the registry is told,
  and the head is returned after the awaited display update, unless that is rejected.
\<close>

definition Dequeue :: "platform \<Rightarrow> HelpQueue \<Rightarrow> (error + GuildMember) \<times> HelpQueue" where
  "Dequeue p s =
     (case queue s of
        [] \<Rightarrow> (Inl (UserError ''Empty queue''), s)
      | user_state # rest \<Rightarrow>
          let s1 = s\<lparr>queue := rest\<rparr>;
              s2 = emit [TryRemoveFromQueue_call user_state (name s1)]
                     (s1\<lparr>member_state_manager :=
                           TryRemoveFromQueue (name s1) user_state (member_state_manager s1)\<rparr>)
          in await_UpdateDisplay p user_state s2)"

definition AddToNotifQueue :: "GuildMember \<Rightarrow> HelpQueue \<Rightarrow> HelpQueue" where
  "AddToNotifQueue m s = s\<lparr>notif_queue := Set_add m (notif_queue s)\<rparr>"

definition RemoveFromNotifQueue :: "GuildMember \<Rightarrow> HelpQueue \<Rightarrow> HelpQueue" where
  "RemoveFromNotifQueue m s = s\<lparr>notif_queue := Set_delete m (notif_queue s)\<rparr>"

definition Peek :: "HelpQueue \<Rightarrow> GuildMember option" where
  "Peek s = (if length (queue s) = 0 then None else Some (queue s ! 0))"

subsection \<open>Sequences of calls\<close>

text \<open>
  The public methods that change something, as the calls a client of the class can
  make; a call of \<open>Enqueue\<close> or \<open>Dequeue\<close> comes with what the platform does to the
  promises it awaits. A call that throws leaves the state as it was at the \<open>throw\<close>,
  and the next call runs from there.
\<close>

datatype operation =
    OpClear
  | OpUpdateDisplay
  | OpEnsureQueueSafe
  | OpAddHelper GuildMember bool
  | OpRemoveHelper GuildMember
  | OpEnqueue GuildMember platform
  | OpRemove GuildMember
  | OpDequeue platform
  | OpAddToNotifQueue GuildMember
  | OpRemoveFromNotifQueue GuildMember
  | OpNotifyUsers

text \<open>
  The result of a call of \<open>Enqueue\<close> or \<open>Dequeue\<close>: the error thrown, or the member
  returned, if any. The other methods return nothing, and the only promise they await
  that can be rejected is their last statement, so that the state they leave does not
  depend on its outcome: for them the state alone is followed, and the entry is
  \<open>Inr None\<close>.
\<close>

type_synonym outcome = "error + GuildMember option"

fun step :: "operation \<Rightarrow> HelpQueue \<Rightarrow> outcome \<times> HelpQueue" where
  "step OpClear s = (Inr None, Clear s)"
| "step OpUpdateDisplay s = (Inr None, UpdateDisplay s)"
| "step OpEnsureQueueSafe s = (Inr None, EnsureQueueSafe_of s)"
| "step (OpAddHelper m mute_notifs) s = (Inr None, AddHelper m mute_notifs s)"
| "step (OpRemoveHelper m) s = (Inr None, RemoveHelper m s)"
| "step (OpEnqueue m p) s =
     (case Enqueue p m s of (r, s') \<Rightarrow> (map_sum id (\<lambda>_. None) r, s'))"
| "step (OpRemove m) s = (Inr None, Remove m s)"
| "step (OpDequeue p) s = (case Dequeue p s of (r, s') \<Rightarrow> (map_sum id Some r, s'))"
| "step (OpAddToNotifQueue m) s = (Inr None, AddToNotifQueue m s)"
| "step (OpRemoveFromNotifQueue m) s = (Inr None, RemoveFromNotifQueue m s)"
| "step OpNotifyUsers s = (Inr None, NotifyUsers s)"

fun run :: "operation list \<Rightarrow> HelpQueue \<Rightarrow> outcome list \<times> HelpQueue" where
  "run [] s = ([], s)"
| "run (op # ops) s =
     (case step op s of (r, s1) \<Rightarrow>
        (case run ops s1 of (rs, s2) \<Rightarrow> (r # rs, s2)))"

text \<open>
  The members that the calls of \<open>Enqueue\<close> pushed, in the order of the calls: the
  order in which members were enqueued. Every call of \<open>Enqueue\<close> counts but those the
  registry refused; a call that throws on a rejected promise has pushed its member
  before.
\<close>

fun enqueued :: "operation list \<Rightarrow> outcome list \<Rightarrow> GuildMember list" where
  "enqueued (OpEnqueue m p # ops) (Inl MembershipRejected # rs) = enqueued ops rs"
| "enqueued (OpEnqueue m p # ops) (_ # rs) = m # enqueued ops rs"
| "enqueued (_ # ops) (_ # rs) = enqueued ops rs"
| "enqueued _ _ = []"

section \<open>The display manager\<close>

subsection \<open>Messages of the display channel\<close>

text \<open>
  A button of a message (\<open>MessageButton\<close>); the emoji is the UTF-8 text of the
  source's literal. A \<open>MessageActionRow\<close> is its list of buttons.
\<close>

record MessageButton =
  customId :: string
  emoji :: string
  disabled :: bool
  label :: string
  style :: string

type_synonym MessageActionRow = "MessageButton list"

text \<open>
  A message as the channel holds it. \<open>message_id\<close> is the identity of the message
  object, \<open>author\<close> the identity of the user who sent it (compared with
  \<open>client.user\<close>).
\<close>

record Message =
  message_id :: nat
  author :: nat
  content :: string
  components :: "MessageActionRow list"
  pinned :: bool

subsection \<open>Asynchronous calls\<close>

text \<open>
  Every call of the platform (\<open>fetchPinned\<close>, \<open>send\<close>, \<open>pin\<close>, \<open>delete\<close>, \<open>edit\<close>)
  returns a promise: the call issues a request and returns at once; the function
  given to \<open>then\<close> runs later, in its own turn of the event loop, once the platform
  has answered. A request that has been issued and not yet answered is kept, with what
  is to run on its answer, in \<open>pending\<close>. \<open>complete i\<close> is the turn in which the
  \<open>i\<close>-th pending request is answered: the platform carries the request out on the
  channel, and the continuation runs. A rejected promise skips its \<open>then\<close>.
\<close>

datatype request =
    fetchPinned
  | send_message string "MessageActionRow list"
  | pin_message nat
  | delete_message nat
  | edit_message nat string "MessageActionRow list"

datatype continuation =
    then_reconcile
  | then_pin
  | then_remember
  | no_continuation

datatype response =
    pinned_messages "Message list"
  | the_message Message
  | rejected

datatype display_event =
    Issued request
  | Answered request
  | Reconciled
  | Remembered nat

text \<open>
  The fields of \<open>HelpQueueDisplayManager\<close> (\<open>client.user\<close>, \<open>queue_message\<close> as the
  identity of the message it refers to), the messages of \<open>display_channel\<close> as the
  platform holds them, the identity the platform gives to the next message, the
  pending requests, and the history of what was issued, answered and done.
\<close>

record display =
  client_user :: nat
  queue_message :: "nat option"
  channel :: "Message list"
  next_message_id :: nat
  pending :: "(request \<times> continuation) list"
  history :: "display_event list"

definition issue :: "request \<Rightarrow> continuation \<Rightarrow> display \<Rightarrow> display" where
  "issue req k d = d\<lparr>pending := pending d @ [(req, k)], history := history d @ [Issued req]\<rparr>"

text \<open>
  The platform's side of each request: the pinned messages of the channel; a new,
  unpinned message of the client's user; pinning, deleting and editing the message
  with the given identity, rejected when the channel has no such message.
\<close>

definition answer :: "request \<Rightarrow> display \<Rightarrow> response \<times> display" where
  "answer req d =
     (case req of
        fetchPinned \<Rightarrow> (pinned_messages (filter pinned (channel d)), d)
      | send_message text rows \<Rightarrow>
          (let m = \<lparr>message_id = next_message_id d, author = client_user d, content = text,
                    components = rows, pinned = False\<rparr>
           in (the_message m,
               d\<lparr>channel := channel d @ [m], next_message_id := next_message_id d + 1\<rparr>))
      | pin_message i \<Rightarrow>
          (case find (\<lambda>m. message_id m = i) (channel d) of
             None \<Rightarrow> (rejected, d)
           | Some m \<Rightarrow>
               (the_message (m\<lparr>pinned := True\<rparr>),
                d\<lparr>channel := map (\<lambda>x. if message_id x = i then x\<lparr>pinned := True\<rparr> else x)
                                  (channel d)\<rparr>))
      | delete_message i \<Rightarrow>
          (case find (\<lambda>m. message_id m = i) (channel d) of
             None \<Rightarrow> (rejected, d)
           | Some m \<Rightarrow>
               (the_message m, d\<lparr>channel := filter (\<lambda>x. message_id x \<noteq> i) (channel d)\<rparr>))
      | edit_message i text rows \<Rightarrow>
          (case find (\<lambda>m. message_id m = i) (channel d) of
             None \<Rightarrow> (rejected, d)
           | Some m \<Rightarrow>
               (the_message (m\<lparr>content := text, components := rows\<rparr>),
                d\<lparr>channel := map (\<lambda>x. if message_id x = i
                                         then x\<lparr>content := text, components := rows\<rparr> else x)
                                  (channel d)\<rparr>)))"

subsection \<open>The class \<open>HelpQueueDisplayManager\<close>\<close>

text \<open>The decimal text of a number, as a template literal prints \<open>queue.length\<close>.\<close>

function decimal :: "nat \<Rightarrow> string" where
  "decimal n = (if n < 10 then [char_of (48 + n)]
                else decimal (n div 10) @ [char_of (48 + n mod 10)])"
  by pat_completeness auto
termination
  by (relation "measure id") auto

text \<open>
  \<open>GetQueueText\<close>. The table is drawn by the library \<open>ascii-table\<close>, which is not part
  of the program: \<open>table_text\<close> stands for what it prints for the heading
  \<open>Position\<close>, \<open>Username\<close> and the given rows.
\<close>

definition GetQueueText ::
  "((nat \<times> string) list \<Rightarrow> string) \<Rightarrow> HelpQueue \<Rightarrow> GuildMember list \<Rightarrow> string" where
  "GetQueueText table_text q queue_members =
     (let quant_prase = (if length_of q = 1 then ''is 1 person''
                         else ''are '' @ decimal (length_of q) @ '' people'');
          status_line = ''The queue is **'' @ (if is_open q then ''OPEN'' else ''CLOSED'') @
                        ''**. There '' @ quant_prase @ '' in the queue.'' @ [CHR 0x0A]
      in if length_of q > 0 then
           status_line @ ''```'' @ [CHR 0x0A] @
           table_text (map (\<lambda>(idx, state). (idx + 1, username state))
                           (enumerate 0 queue_members)) @
           [CHR 0x0A] @ ''```''
         else status_line)"

definition joinLeaveButtons :: "HelpQueue \<Rightarrow> MessageActionRow" where
  "joinLeaveButtons q =
     [\<lparr>customId = ''join '' @ name q, emoji = [CHR 0xE2, CHR 0x9C, CHR 0x85],
       disabled = (\<not> is_open q), label = ''Join Queue'', style = ''SUCCESS''\<rparr>,
      \<lparr>customId = ''leave '' @ name q, emoji = [CHR 0xE2, CHR 0x9D, CHR 0x8E],
       disabled = (\<not> is_open q), label = ''Leave Queue'', style = ''DANGER''\<rparr>]"

definition notifButtons :: "HelpQueue \<Rightarrow> MessageActionRow" where
  "notifButtons q =
     [\<lparr>customId = ''notif '' @ name q, emoji = [CHR 0xF0, CHR 0x9F, CHR 0x94, CHR 0x94],
       disabled = is_open q, label = ''Notify When Open'', style = ''PRIMARY''\<rparr>,
      \<lparr>customId = ''removeN '' @ name q, emoji = [CHR 0xF0, CHR 0x9F, CHR 0x94, CHR 0x95],
       disabled = is_open q, label = ''Remove Notifications'', style = ''PRIMARY''\<rparr>]"

text \<open>
  \<open>EnsureQueueSafe\<close> is in two parts. The call itself issues \<open>fetchPinned\<close> and
  returns the promise. \<open>EnsureQueueSafe_then\<close> is what the two \<open>then\<close> do with the
  pinned messages once they have arrived: keep those of the client's user; when there
  are several, call \<open>delete\<close> on each and forget the handle; when there is none,
  forget the handle; with exactly one, nothing.
\<close>

definition EnsureQueueSafe :: "display \<Rightarrow> display" where
  "EnsureQueueSafe d = issue fetchPinned then_reconcile d"

definition EnsureQueueSafe_then :: "Message list \<Rightarrow> display \<Rightarrow> display" where
  "EnsureQueueSafe_then fetched d =
     (let messages = filter (\<lambda>msg. author msg = client_user d) fetched in
      if length messages > 1 then
        (fold (\<lambda>message. issue (delete_message (message_id message)) no_continuation)
              messages d)
          \<lparr>queue_message := None\<rparr>
      else if length messages = 0 then d\<lparr>queue_message := None\<rparr>
      else d)"

text \<open>
  \<open>OnQueueUpdate\<close> up to its \<open>await\<close>. Without a handle it calls \<open>EnsureQueueSafe()\<close>,
  whose promise it drops, and then \<open>send\<close>, whose promise it chains with \<open>pin\<close> and
  with the assignment to \<open>queue_message\<close>; with a handle it calls \<open>edit\<close>.
\<close>

definition OnQueueUpdate ::
  "((nat \<times> string) list \<Rightarrow> string) \<Rightarrow> HelpQueue \<Rightarrow> GuildMember list \<Rightarrow> display \<Rightarrow> display" where
  "OnQueueUpdate table_text q queue_members d =
     (let message_text = GetQueueText table_text q queue_members in
      case queue_message d of
        None \<Rightarrow>
          issue (send_message message_text [joinLeaveButtons q, notifButtons q]) then_pin
            (EnsureQueueSafe d)
      | Some m \<Rightarrow>
          issue (edit_message m message_text [joinLeaveButtons q, notifButtons q])
            no_continuation d)"

text \<open>What runs when a promise is fulfilled with the platform's answer.\<close>

definition resume :: "continuation \<Rightarrow> response \<Rightarrow> display \<Rightarrow> display" where
  "resume k resp d =
     (case (k, resp) of
        (then_reconcile, pinned_messages fetched) \<Rightarrow>
          (let d1 = EnsureQueueSafe_then fetched d in d1\<lparr>history := history d1 @ [Reconciled]\<rparr>)
      | (then_pin, the_message m) \<Rightarrow> issue (pin_message (message_id m)) then_remember d
      | (then_remember, the_message m) \<Rightarrow>
          d\<lparr>queue_message := Some (message_id m),
            history := history d @ [Remembered (message_id m)]\<rparr>
      | _ \<Rightarrow> d)"

definition complete :: "nat \<Rightarrow> display \<Rightarrow> display" where
  "complete i d =
     (if i < length (pending d) then
        (case pending d ! i of (req, k) \<Rightarrow>
           (case answer req (d\<lparr>pending := take i (pending d) @ drop (Suc i) (pending d)\<rparr>) of
              (resp, d1) \<Rightarrow> resume k resp (d1\<lparr>history := history d1 @ [Answered req]\<rparr>)))
      else d)"

text \<open>A schedule names, turn after turn, the pending request that is answered next.\<close>

fun run_pending :: "nat list \<Rightarrow> display \<Rightarrow> display" where
  "run_pending [] d = d"
| "run_pending (i # schedule) d = run_pending schedule (complete i d)"

text \<open>
  \<open>await this.display_manager.EnsureQueueSafe()\<close>, as \<open>HelpQueue.EnsureQueueSafe\<close> does
  it: the request is issued and the caller goes on when it has been answered and the
  continuation has run.
\<close>

definition EnsureQueueSafe_awaited :: "display \<Rightarrow> display" where
  "EnsureQueueSafe_awaited d = complete (length (pending d)) (EnsureQueueSafe d)"

section \<open>Sample values\<close>

definition alice :: GuildMember where "alice = GuildMember 1 ''1001'' ''alice''"
definition bob :: GuildMember where "bob = GuildMember 2 ''1002'' ''bob''"
definition ta1 :: GuildMember where "ta1 = GuildMember 3 ''1003'' ''ta1''"

text \<open>A registry in which nobody occupies a queue, and the queue of the scenarios.\<close>

definition no_members :: MemberStateManager where "no_members = (\<lambda>_. None)"

definition algo_help :: HelpQueue where "algo_help = HelpQueue_new ''algo-help'' no_members"

text \<open>
  A pinned message of the client's user (the user \<open>0\<close>), and three displays without
  pending requests: one whose channel has no such message while a handle is kept, one
  with a single such message and no handle, one with two such messages and no handle.
\<close>

definition bot_message :: "nat \<Rightarrow> Message" where
  "bot_message i = \<lparr>message_id = i, author = 0, content = ''old'', components = [], pinned = True\<rparr>"

definition empty_display :: display where
  "empty_display = \<lparr>client_user = 0, queue_message = Some 7, channel = [],
     next_message_id = 8, pending = [], history = []\<rparr>"

definition lone_display :: display where
  "lone_display = \<lparr>client_user = 0, queue_message = None, channel = [bot_message 1],
     next_message_id = 2, pending = [], history = []\<rparr>"

definition stale_display :: display where
  "stale_display = \<lparr>client_user = 0, queue_message = None,
     channel = [bot_message 1, bot_message 2],
     next_message_id = 3, pending = [], history = []\<rparr>"

text \<open>
  A table printer for queues without members, and the \<open>send\<close> request that
  \<open>OnQueueUpdate\<close> makes for the new, closed queue \<open>algo_help\<close>.
\<close>

definition no_table :: "(nat \<times> string) list \<Rightarrow> string" where
  "no_table rows = []"

definition algo_help_post :: request where
  "algo_help_post =
     send_message (GetQueueText no_table algo_help (queue algo_help))
       [joinLeaveButtons algo_help, notifButtons algo_help]"

section \<open>Auxiliary notions\<close>

text \<open>
  The invariant behind the order of the line, relative to the members \<open>hist\<close>
  enqueued so far: no member stands twice in the line, the registry records every
  member of the line as occupying this queue, and the line is \<open>hist\<close>, each member
  taken at the place of its latest enqueue (\<open>remdups\<close> keeps the last occurrence of
  every element), without those who have left.
\<close>

definition line_ok :: "HelpQueue \<Rightarrow> GuildMember list \<Rightarrow> bool" where
  "line_ok s hist \<longleftrightarrow>
     distinct (queue s) \<and>
     (\<forall>m \<in> set (queue s). member_state_manager s m = Some (name s)) \<and>
     queue s = filter (\<lambda>m. m \<in> set (queue s)) (remdups hist)"

text \<open>The texts of the direct messages to one member, in the order they were sent.\<close>

fun texts_to :: "GuildMember \<Rightarrow> effect list \<Rightarrow> string list" where
  "texts_to x [] = []"
| "texts_to x (send m text # es) = (if m = x then text # texts_to x es else texts_to x es)"
| "texts_to x (_ # es) = texts_to x es"

text \<open>
  The pinned messages of the channel that the client's user wrote: what
  \<open>EnsureQueueSafe\<close> keeps of the answer to \<open>fetchPinned\<close>.
\<close>

definition own_pinned :: "display \<Rightarrow> Message list" where
  "own_pinned d = filter (\<lambda>msg. author msg = client_user d) (filter pinned (channel d))"

section \<open>Properties of the help queue\<close>

subsection \<open>What each method leaves unchanged\<close>

lemma remdups_snoc: "remdups (xs @ [m]) = filter (\<lambda>x. x \<noteq> m) (remdups xs) @ [m]"
  by (induction xs) auto

lemma UpdateDisplay_fields [simp]:
  "queue (UpdateDisplay s) = queue s" "name (UpdateDisplay s) = name s"
  "helpers (UpdateDisplay s) = helpers s" "notif_queue (UpdateDisplay s) = notif_queue s"
  "member_state_manager (UpdateDisplay s) = member_state_manager s"
  "console (UpdateDisplay s) = console s"
  by (simp_all add: UpdateDisplay_def emit_def)

lemma emit_fields [simp]:
  "queue (emit es s) = queue s" "name (emit es s) = name s"
  "helpers (emit es s) = helpers s" "notif_queue (emit es s) = notif_queue s"
  "member_state_manager (emit es s) = member_state_manager s"
  "console (emit es s) = console s"
  "effects (emit es s) = effects s @ es"
  by (simp_all add: emit_def)

lemma NotifyUsers_fields [simp]:
  "queue (NotifyUsers s) = queue s" "name (NotifyUsers s) = name s"
  "helpers (NotifyUsers s) = helpers s"
  "member_state_manager (NotifyUsers s) = member_state_manager s"
  "console (NotifyUsers s) = console s"
  by (simp_all add: NotifyUsers_def)

lemma Clear_fold_fields:
  "name (fold (\<lambda>m st. emit [TryRemoveFromQueue_call m (name st)]
                       (st\<lparr>member_state_manager :=
                             TryRemoveFromQueue (name st) m (member_state_manager st)\<rparr>)) ms s) = name s"
  "helpers (fold (\<lambda>m st. emit [TryRemoveFromQueue_call m (name st)]
                       (st\<lparr>member_state_manager :=
                             TryRemoveFromQueue (name st) m (member_state_manager st)\<rparr>)) ms s) = helpers s"
  "notif_queue (fold (\<lambda>m st. emit [TryRemoveFromQueue_call m (name st)]
                       (st\<lparr>member_state_manager :=
                             TryRemoveFromQueue (name st) m (member_state_manager st)\<rparr>)) ms s) = notif_queue s"
  by (induction ms arbitrary: s) simp_all

lemma Clear_fields [simp]:
  "queue (Clear s) = []" "name (Clear s) = name s" "helpers (Clear s) = helpers s"
  "notif_queue (Clear s) = notif_queue s"
  by (simp_all add: Clear_def Let_def Clear_fold_fields)

lemma step_name: "step op s = (r, s') \<Longrightarrow> name s' = name s"
  by (cases op)
     (auto simp: EnsureQueueSafe_of_def AddHelper_def RemoveHelper_def Enqueue_def Remove_def
        Dequeue_def await_UpdateDisplay_def AddToNotifQueue_def RemoveFromNotifQueue_def Let_def
        split: sum.splits list.splits if_splits)

lemma filter_mem_filter: "filter (\<lambda>m. m \<in> set (filter P xs)) ys = filter P (filter (\<lambda>m. m \<in> set xs) ys)"
  by (induction ys) auto

lemma line_ok_filter:
  "line_ok s hist \<Longrightarrow> filter (\<lambda>m. m \<in> set (queue s)) (remdups hist) = queue s"
  unfolding line_ok_def by (elim conjE) (erule sym)

lemma filter_filter_mem:
  "filter (\<lambda>x. x \<in> A \<and> x \<in> B) xs = filter (\<lambda>x. x \<in> A) (filter (\<lambda>x. x \<in> B) xs)"
  by (induction xs) auto

lemma step_line_ok:
  assumes "line_ok s hist" and "step op s = (r, s')"
  shows "line_ok s' (hist @ enqueued [op] [r])"
proof (cases op)
  case (OpEnqueue m p)
  show ?thesis
  proof (cases "member_state_manager s m")
    case None
    then have notin: "m \<notin> set (queue s)" using assms(1) by (auto simp: line_ok_def)
    from None OpEnqueue assms(2) have "r = Inr None \<or> r = Inl PromiseRejected"
      and q: "queue s' = queue s @ [m]"
      and reg: "member_state_manager s' = (member_state_manager s)(m := Some (name s))"
      and nm: "name s' = name s"
      by (auto simp: Enqueue_def await_UpdateDisplay_def TryAddToQueue_def Let_def
          split: if_splits)
    then have r: "enqueued [OpEnqueue m p] [r] = [m]" by auto
    have "filter (\<lambda>x. x \<in> set (queue s) \<or> x = m) (remdups (hist @ [m])) = queue s @ [m]"
    proof -
      have "filter (\<lambda>x. x \<in> set (queue s) \<or> x = m) (filter (\<lambda>x. x \<noteq> m) (remdups hist))
            = filter (\<lambda>x. x \<in> set (queue s)) (remdups hist)"
        using notin by (auto intro: filter_cong)
      then show ?thesis using assms(1) by (simp add: remdups_snoc line_ok_def)
    qed
    then show ?thesis using assms(1) notin r q reg nm OpEnqueue
      by (auto simp: line_ok_def disj_commute)
  next
    case (Some q)
    with OpEnqueue assms(2) have "r = Inl MembershipRejected" "queue s' = queue s"
      "member_state_manager s' = member_state_manager s" "name s' = name s"
      by (auto simp: Enqueue_def TryAddToQueue_def Let_def)
    then show ?thesis using assms(1) OpEnqueue by (simp add: line_ok_def)
  qed
next
  case (OpRemove m)
  with assms(2) have r: "r = Inr None"
    and q: "queue s' = filter (\<lambda>x. x \<noteq> m) (queue s)"
    and reg: "member_state_manager s' = TryRemoveFromQueue (name s) m (member_state_manager s)"
    and nm: "name s' = name s"
    by (auto simp: Remove_def Let_def)
  have "filter (\<lambda>x. x \<in> set (filter (\<lambda>x. x \<noteq> m) (queue s))) (remdups hist)
        = filter (\<lambda>x. x \<noteq> m) (queue s)"
    using assms(1) unfolding line_ok_def filter_mem_filter by simp
  then show ?thesis using assms(1) r q reg nm OpRemove
    by (auto simp: line_ok_def TryRemoveFromQueue_def)
next
  case (OpDequeue p)
  show ?thesis
  proof (cases "queue s")
    case Nil
    with OpDequeue assms show ?thesis by (auto simp: Dequeue_def)
  next
    case (Cons h t)
    with OpDequeue assms(2) have q: "queue s' = t"
      and reg: "member_state_manager s' = TryRemoveFromQueue (name s) h (member_state_manager s)"
      and nm: "name s' = name s"
      by (auto simp: Dequeue_def await_UpdateDisplay_def Let_def)
    from assms(1) Cons have d: "h \<notin> set t" "distinct t" by (auto simp: line_ok_def)
    have "filter (\<lambda>x. x \<in> set t) (remdups hist) = filter (\<lambda>x. x \<in> set t \<and> x \<in> set (queue s)) (remdups hist)"
      using Cons by (intro filter_cong) auto
    also have "\<dots> = filter (\<lambda>x. x \<in> set t) (queue s)"
      by (simp only: filter_filter_mem line_ok_filter [OF assms(1)])
    also have "\<dots> = t" using d Cons by (simp add: filter_id_conv)
    finally show ?thesis using assms(1) Cons q reg nm d OpDequeue
      by (auto simp: line_ok_def TryRemoveFromQueue_def)
  qed
next
  case OpClear
  with assms show ?thesis by (auto simp: line_ok_def)
qed (use assms in \<open>auto simp: line_ok_def EnsureQueueSafe_of_def AddHelper_def RemoveHelper_def
        AddToNotifQueue_def RemoveFromNotifQueue_def Let_def split: if_splits\<close>)

lemma enqueued_Cons: "enqueued (op # ops) (r # rs) = enqueued [op] [r] @ enqueued ops rs"
  by (cases "(op # ops, r # rs)" rule: enqueued.cases) auto

lemma run_line_ok:
  "line_ok s hist \<Longrightarrow> run ops s = (rs, s') \<Longrightarrow> line_ok s' (hist @ enqueued ops rs)"
proof (induction ops arbitrary: s hist rs s')
  case Nil
  then show ?case by simp
next
  case (Cons op ops)
  obtain r s1 where st: "step op s = (r, s1)" by (cases "step op s")
  obtain rs1 s2 where rn: "run ops s1 = (rs1, s2)" by (cases "run ops s1")
  from Cons.prems(2) st rn have eq: "rs = r # rs1" "s' = s2" by auto
  have mid: "line_ok s1 (hist @ enqueued [op] [r])" by (rule step_line_ok [OF Cons.prems(1) st])
  have "line_ok s2 ((hist @ enqueued [op] [r]) @ enqueued ops rs1)"
    by (rule Cons.IH [OF mid rn])
  then show ?case using eq by (simp add: enqueued_Cons [of op ops r rs1])
qed

lemma line_ok_new: "line_ok (HelpQueue_new nm reg) []"
  by (simp add: line_ok_def HelpQueue_new_def)

text \<open>The two sets stay without repetition along every run.\<close>

lemma Set_distinct:
  "distinct xs \<Longrightarrow> distinct (Set_add x xs)" "distinct xs \<Longrightarrow> distinct (Set_delete x xs)"
  by (simp_all add: Set_add_def Set_delete_def)

lemma step_sets_distinct:
  assumes "distinct (helpers s) \<and> distinct (notif_queue s)" and "step op s = (r, s')"
  shows "distinct (helpers s') \<and> distinct (notif_queue s')"
  using assms
  by (cases op)
     (auto simp: EnsureQueueSafe_of_def AddHelper_def RemoveHelper_def Enqueue_def Remove_def
        Dequeue_def await_UpdateDisplay_def AddToNotifQueue_def RemoveFromNotifQueue_def NotifyUsers_def Let_def
        Set_distinct Clear_fold_fields
        split: sum.splits list.splits if_splits)

lemma run_sets_distinct_from:
  "distinct (helpers s) \<and> distinct (notif_queue s) \<Longrightarrow> run ops s = (rs, s') \<Longrightarrow>
     distinct (helpers s') \<and> distinct (notif_queue s')"
proof (induction ops arbitrary: s rs s')
  case Nil
  then show ?case by simp
next
  case (Cons op ops)
  obtain r s1 where st: "step op s = (r, s1)" by (cases "step op s")
  obtain rs1 s2 where rn: "run ops s1 = (rs1, s2)" by (cases "run ops s1")
  from Cons.prems(2) st rn have eq: "s' = s2" by auto
  have mid: "distinct (helpers s1) \<and> distinct (notif_queue s1)"
    by (rule step_sets_distinct [OF Cons.prems(1) st])
  show ?case unfolding eq by (rule Cons.IH [OF mid rn])
qed

lemma run_sets_distinct:
  "distinct (helpers (snd (run ops (HelpQueue_new nm reg)))) \<and>
   distinct (notif_queue (snd (run ops (HelpQueue_new nm reg))))"
proof -
  obtain rs s' where rn: "run ops (HelpQueue_new nm reg) = (rs, s')"
    by (cases "run ops (HelpQueue_new nm reg)")
  have "distinct (helpers (HelpQueue_new nm reg)) \<and> distinct (notif_queue (HelpQueue_new nm reg))"
    by (simp add: HelpQueue_new_def)
  from run_sets_distinct_from [OF this rn] rn show ?thesis by simp
qed

subsection \<open>The claims about the queue\<close>

text \<open>
  C1. Start from a new \<open>HelpQueue\<close> (over any registry) and make any sequence of
  calls, of \<open>Enqueue\<close>, \<open>Remove\<close> and \<open>Dequeue\<close> in particular. Then no member stands
  twice in the members list, and the members that remain stand in the order in which
  they were enqueued: the list is the sequence of the \<open>Enqueue\<close> calls that pushed
  their member (all but those the registry refused), each member at its latest one,
  restricted to the members still there. This holds whatever the platform does to
  the promises awaited along the way.
\<close>

theorem members_distinct_and_fifo:
  "distinct (queue (snd (run ops (HelpQueue_new nm reg)))) \<and>
   queue (snd (run ops (HelpQueue_new nm reg))) =
     filter (\<lambda>m. m \<in> set (queue (snd (run ops (HelpQueue_new nm reg)))))
       (remdups (enqueued ops (fst (run ops (HelpQueue_new nm reg)))))"
proof -
  obtain rs s' where rn: "run ops (HelpQueue_new nm reg) = (rs, s')"
    by (cases "run ops (HelpQueue_new nm reg)")
  have "line_ok s' ([] @ enqueued ops rs)" by (rule run_line_ok [OF line_ok_new rn])
  then show ?thesis using rn by (simp add: line_ok_def)
qed

text \<open>
  An instance: \<open>alice\<close> and \<open>bob\<close> join, a second \<open>Enqueue\<close> of \<open>alice\<close> is refused,
  \<open>alice\<close> is served and joins again, now behind \<open>bob\<close>; her second call throws on a
  rejected display update, after the push.
\<close>

lemma line_example:
  "enqueued [OpEnqueue alice delivers, OpEnqueue bob delivers, OpEnqueue alice delivers,
             OpDequeue delivers, OpEnqueue alice (delivers\<lparr>update_rejected := True\<rparr>)]
     (fst (run [OpEnqueue alice delivers, OpEnqueue bob delivers, OpEnqueue alice delivers,
                OpDequeue delivers, OpEnqueue alice (delivers\<lparr>update_rejected := True\<rparr>)]
             algo_help)) = [alice, bob, alice] \<and>
   queue (snd (run [OpEnqueue alice delivers, OpEnqueue bob delivers, OpEnqueue alice delivers,
                    OpDequeue delivers, OpEnqueue alice (delivers\<lparr>update_rejected := True\<rparr>)]
                 algo_help)) = [bob, alice]"
  by (simp add: Enqueue_def Dequeue_def await_UpdateDisplay_def delivers_def TryAddToQueue_def
      TryRemoveFromQueue_def UpdateDisplay_def emit_def Let_def algo_help_def HelpQueue_new_def
      no_members_def alice_def bob_def)

text \<open>
  C2. In every state reached from a new \<open>HelpQueue\<close> by calls of its methods,
  \<open>is_open\<close> holds exactly when the set of helpers is not empty.
\<close>

theorem is_open_iff_helpers:
  "is_open (snd (run ops (HelpQueue_new nm reg))) \<longleftrightarrow>
     set (helpers (snd (run ops (HelpQueue_new nm reg)))) \<noteq> {}"
  by (simp add: is_open_def Set_size_def)

lemma AddHelper_first:
  assumes "\<not> is_open s"
  shows "AddHelper m mute_notifs s =
           UpdateDisplay (if mute_notifs then s\<lparr>helpers := [m]\<rparr>
                          else NotifyUsers (s\<lparr>helpers := [m]\<rparr>))"
  using assms by (simp add: AddHelper_def is_open_def Set_size_def Set_has_def Set_add_def)

text \<open>
  C3, as the code has it. When \<open>AddHelper\<close> opens a closed queue (no helper before,
  one after), the notification subscribers are emptied if \<open>mute_notifs\<close> is false;
  if it is true they are left as they were.
\<close>

theorem AddHelper_opening_drains_unless_muted:
  "\<not> is_open s \<Longrightarrow>
     is_open (AddHelper m mute_notifs s) \<and>
     notif_queue (AddHelper m mute_notifs s) = (if mute_notifs then notif_queue s else [])"
  by (simp add: AddHelper_first) (simp add: is_open_def Set_size_def NotifyUsers_def)

theorem AddHelper_opening_drains_unless_muted_witness:
  "\<not> is_open (AddToNotifQueue alice algo_help) \<and>
   is_open (AddHelper ta1 False (AddToNotifQueue alice algo_help)) \<and>
   notif_queue (AddHelper ta1 False (AddToNotifQueue alice algo_help)) = []"
proof -
  have closed: "\<not> is_open (AddToNotifQueue alice algo_help)"
    by (simp add: is_open_def Set_size_def AddToNotifQueue_def algo_help_def HelpQueue_new_def)
  from AddHelper_opening_drains_unless_muted [OF closed, of ta1 False] closed
  show ?thesis by simp
qed

text \<open>
  With \<open>mute_notifs\<close> true, the first helper opens the queue and the subscriber is
  still on the list.
\<close>

theorem muted_opening_keeps_subscribers:
  "\<not> is_open (AddToNotifQueue alice algo_help) \<and>
   is_open (AddHelper ta1 True (AddToNotifQueue alice algo_help)) \<and>
   notif_queue (AddHelper ta1 True (AddToNotifQueue alice algo_help)) \<noteq> []"
  by (simp add: AddHelper_def is_open_def Set_size_def Set_has_def Set_add_def
      AddToNotifQueue_def algo_help_def HelpQueue_new_def)

lemma texts_to_append: "texts_to x (es @ fs) = texts_to x es @ texts_to x fs"
  by (induction x es rule: texts_to.induct) auto

lemma texts_to_others: "x \<notin> set ys \<Longrightarrow> texts_to x (map (\<lambda>y. send y t) ys) = []"
  by (induction ys) auto

lemma texts_to_once:
  "distinct ys \<Longrightarrow> x \<in> set ys \<Longrightarrow> texts_to x (map (\<lambda>y. send y t) ys) = [t]"
  by (induction ys) (auto simp: texts_to_others)

text \<open>
  C4, with the text the code sends. When \<open>AddHelper m false\<close> opens a closed queue,
  every member who was a notification subscriber is sent exactly one more direct
  message, the text \<open>Hey! The `<name>` queue is now open!\<close> with the queue's name, and
  the subscribers are empty afterwards. (\<open>distinct\<close> is what a \<open>Set\<close> guarantees; see
  \<open>run_sets_distinct\<close>.)
\<close>

theorem AddHelper_opening_notifies_subscribers:
  assumes "\<not> is_open s" and "distinct (notif_queue s)"
  shows "notif_queue (AddHelper m False s) = [] \<and>
         (\<forall>x \<in> set (notif_queue s).
            texts_to x (effects (AddHelper m False s)) =
              texts_to x (effects s) @ [''Hey! The `'' @ name s @ ''` queue is now open!''])"
proof -
  have eff: "effects (AddHelper m False s) =
               effects s @ map (\<lambda>y. send y (open_text (name s))) (notif_queue s) @
               [OnQueueUpdate_call (name s) True (queue s)]"
    using assms(1)
    by (simp add: AddHelper_first NotifyUsers_def UpdateDisplay_def emit_def Set_size_def
        is_open_def)
  have "notif_queue (AddHelper m False s) = []"
    using assms(1) by (simp add: AddHelper_first NotifyUsers_def Set_size_def)
  moreover have "texts_to x (effects (AddHelper m False s)) =
                   texts_to x (effects s) @ [''Hey! The `'' @ name s @ ''` queue is now open!'']"
    if "x \<in> set (notif_queue s)" for x
    using that assms(2) by (simp add: eff texts_to_append texts_to_once open_text_def)
  ultimately show ?thesis by blast
qed

theorem AddHelper_opening_notifies_subscribers_witness:
  "\<not> is_open (AddToNotifQueue alice algo_help) \<and>
   distinct (notif_queue (AddToNotifQueue alice algo_help)) \<and>
   alice \<in> set (notif_queue (AddToNotifQueue alice algo_help)) \<and>
   notif_queue (AddHelper ta1 False (AddToNotifQueue alice algo_help)) = [] \<and>
   texts_to alice (effects (AddHelper ta1 False (AddToNotifQueue alice algo_help))) =
     [''Hey! The `algo-help` queue is now open!'']"
proof -
  have closed: "\<not> is_open (AddToNotifQueue alice algo_help)"
    by (simp add: is_open_def Set_size_def AddToNotifQueue_def algo_help_def HelpQueue_new_def)
  have subs: "notif_queue (AddToNotifQueue alice algo_help) = [alice]"
    by (simp add: AddToNotifQueue_def Set_add_def algo_help_def HelpQueue_new_def)
  have dist: "distinct (notif_queue (AddToNotifQueue alice algo_help))"
    by (simp add: subs)
  have before: "effects (AddToNotifQueue alice algo_help) = []"
      "name (AddToNotifQueue alice algo_help) = ''algo-help''"
    by (simp_all add: AddToNotifQueue_def algo_help_def HelpQueue_new_def)
  from AddHelper_opening_notifies_subscribers [OF closed dist, of ta1] closed dist
  show ?thesis by (simp add: subs before)
qed

text \<open>
  The scenario of the queue \<open>algo-help\<close>: what the subscriber is sent is not the text
  \<open>The "algo-help" queue is now open!\<close>.
\<close>

theorem open_text_differs_from_claimed:
  \<open>\<not> is_open (AddToNotifQueue alice algo_help) \<and>
   alice \<in> set (notif_queue (AddToNotifQueue alice algo_help)) \<and>
   texts_to alice (effects (AddHelper ta1 False (AddToNotifQueue alice algo_help))) \<noteq>
     [''The "algo-help" queue is now open!'']\<close>
  by (simp add: AddHelper_def NotifyUsers_def UpdateDisplay_def emit_def open_text_def
      is_open_def Set_size_def Set_has_def Set_add_def
      AddToNotifQueue_def algo_help_def HelpQueue_new_def)




text \<open>
  C7. \<open>AddHelper\<close> for a member who is a helper already, with either value of
  \<open>mute_notifs\<close>, writes the warning to the console and changes nothing else: helpers,
  members, subscribers and registry are as before, and nothing is sent and no display
  update is requested.
\<close>

theorem AddHelper_again_only_warns:
  "m \<in> set (helpers s) \<Longrightarrow>
     AddHelper m mute_notifs s =
       s\<lparr>console := console s @
           [''Queue '' @ name s @ '' already has helper '' @ username m @
            ''. Ignoring call to AddHelper'']\<rparr> \<and>
     helpers (AddHelper m mute_notifs s) = helpers s \<and>
     queue (AddHelper m mute_notifs s) = queue s \<and>
     notif_queue (AddHelper m mute_notifs s) = notif_queue s \<and>
     member_state_manager (AddHelper m mute_notifs s) = member_state_manager s \<and>
     effects (AddHelper m mute_notifs s) = effects s"
  by (simp add: AddHelper_def Set_has_def)

theorem AddHelper_again_only_warns_witness:
  "ta1 \<in> set (helpers (AddHelper ta1 False algo_help)) \<and>
   helpers (AddHelper ta1 False (AddHelper ta1 False algo_help)) = [ta1] \<and>
   effects (AddHelper ta1 False (AddHelper ta1 False algo_help)) =
     effects (AddHelper ta1 False algo_help)"
proof -
  have h: "helpers (AddHelper ta1 False algo_help) = [ta1]"
    by (simp add: AddHelper_def Set_has_def Set_add_def Set_size_def NotifyUsers_def
        algo_help_def HelpQueue_new_def)
  then have mem: "ta1 \<in> set (helpers (AddHelper ta1 False algo_help))" by simp
  from AddHelper_again_only_warns [OF mem, of False] mem h show ?thesis by simp
qed




text \<open>
  C10. \<open>Remove\<close> of a member who is not in the members leaves the members list as it
  is, and still calls \<open>TryRemoveFromQueue\<close> for that member and requests a display
  update; helpers and notification subscribers are unchanged by \<open>Remove\<close> in every
  case.
\<close>

theorem Remove_absent_member:
  "(m \<notin> set (queue s) \<longrightarrow>
      queue (Remove m s) = queue s \<and>
      effects (Remove m s) =
        effects s @ [TryRemoveFromQueue_call m (name s),
                     OnQueueUpdate_call (name s) (is_open s) (queue s)]) \<and>
   helpers (Remove m s) = helpers s \<and>
   notif_queue (Remove m s) = notif_queue s"
  by (auto simp: Remove_def Let_def UpdateDisplay_def emit_def is_open_def filter_id_conv)

theorem Remove_absent_member_witness:
  "alice \<notin> set (queue (snd (Enqueue delivers bob algo_help))) \<and>
   queue (Remove alice (snd (Enqueue delivers bob algo_help))) = [bob] \<and>
   effects (Remove alice (snd (Enqueue delivers bob algo_help))) =
     effects (snd (Enqueue delivers bob algo_help)) @
       [TryRemoveFromQueue_call alice ''algo-help'',
        OnQueueUpdate_call ''algo-help'' False [bob]]"
proof -
  have q: "queue (snd (Enqueue delivers bob algo_help)) = [bob]"
      "name (snd (Enqueue delivers bob algo_help)) = ''algo-help''"
      "is_open (snd (Enqueue delivers bob algo_help)) = False"
    by (simp_all add: Enqueue_def await_UpdateDisplay_def delivers_def TryAddToQueue_def
        UpdateDisplay_def emit_def Let_def
        is_open_def Set_size_def algo_help_def HelpQueue_new_def no_members_def)
  have absent: "alice \<notin> set (queue (snd (Enqueue delivers bob algo_help)))"
    by (simp only: q) (simp add: alice_def bob_def)
  from Remove_absent_member [of alice "snd (Enqueue delivers bob algo_help)"] absent q
  show ?thesis by simp
qed

section \<open>Properties of the display manager\<close>

lemma issue_fields [simp]:
  "client_user (issue req k d) = client_user d"
  "queue_message (issue req k d) = queue_message d"
  "channel (issue req k d) = channel d"
  "next_message_id (issue req k d) = next_message_id d"
  "pending (issue req k d) = pending d @ [(req, k)]"
  "history (issue req k d) = history d @ [Issued req]"
  by (simp_all add: issue_def)

lemma fold_issue_delete:
  "pending (fold (\<lambda>message. issue (delete_message (message_id message)) no_continuation) ms d) =
     pending d @ map (\<lambda>msg. (delete_message (message_id msg), no_continuation)) ms"
  "channel (fold (\<lambda>message. issue (delete_message (message_id message)) no_continuation) ms d) =
     channel d"
  "client_user (fold (\<lambda>message. issue (delete_message (message_id message)) no_continuation) ms d) =
     client_user d"
  by (induction ms arbitrary: d) simp_all

lemma EnsureQueueSafe_awaited_eq:
  "EnsureQueueSafe_awaited d =
     (let d1 = EnsureQueueSafe_then (filter pinned (channel d))
                 (d\<lparr>history := history d @ [Issued fetchPinned, Answered fetchPinned]\<rparr>)
      in d1\<lparr>history := history d1 @ [Reconciled]\<rparr>)"
  by (simp add: EnsureQueueSafe_awaited_def EnsureQueueSafe_def complete_def issue_def
      answer_def resume_def nth_append Let_def)

text \<open>
  C6, as the code has it. \<open>EnsureQueueSafe\<close>, awaited, looks at the pinned messages of
  the channel written by the client's user. With none, it forgets the handle. With more
  than one, it calls \<open>delete\<close> on each of them and forgets the handle. With exactly
  one, it does nothing: the handle stays what it was, and no request is made. The
  channel itself is not changed before the \<open>delete\<close> requests are answered.
\<close>

theorem EnsureQueueSafe_reconciles:
  "(length (own_pinned d) = 0 \<longrightarrow>
      queue_message (EnsureQueueSafe_awaited d) = None \<and>
      pending (EnsureQueueSafe_awaited d) = pending d) \<and>
   (length (own_pinned d) > 1 \<longrightarrow>
      queue_message (EnsureQueueSafe_awaited d) = None \<and>
      pending (EnsureQueueSafe_awaited d) =
        pending d @ map (\<lambda>msg. (delete_message (message_id msg), no_continuation)) (own_pinned d)) \<and>
   (length (own_pinned d) = 1 \<longrightarrow>
      queue_message (EnsureQueueSafe_awaited d) = queue_message d \<and>
      pending (EnsureQueueSafe_awaited d) = pending d) \<and>
   channel (EnsureQueueSafe_awaited d) = channel d"
  by (simp add: EnsureQueueSafe_awaited_eq EnsureQueueSafe_then_def own_pinned_def Let_def
      fold_issue_delete)

theorem EnsureQueueSafe_reconciles_witness:
  "length (own_pinned empty_display) = 0 \<and>
   queue_message empty_display = Some 7 \<and>
   queue_message (EnsureQueueSafe_awaited empty_display) = None \<and>
   length (own_pinned stale_display) > 1 \<and>
   queue_message (EnsureQueueSafe_awaited stale_display) = None \<and>
   pending (EnsureQueueSafe_awaited stale_display) =
     [(delete_message 1, no_continuation), (delete_message 2, no_continuation)] \<and>
   channel (run_pending [0, 0] (EnsureQueueSafe_awaited stale_display)) = [] \<and>
   length (own_pinned lone_display) = 1 \<and>
   queue_message (EnsureQueueSafe_awaited lone_display) = queue_message lone_display"
proof -
  have none: "own_pinned empty_display = []"
    by (simp add: own_pinned_def empty_display_def)
  have two: "own_pinned stale_display = [bot_message 1, bot_message 2]"
    by (simp add: own_pinned_def stale_display_def bot_message_def)
  have one: "own_pinned lone_display = [bot_message 1]"
    by (simp add: own_pinned_def lone_display_def bot_message_def)
  have st: "queue_message empty_display = Some 7" "pending stale_display = []"
    "\<And>i. message_id (bot_message i) = i"
    by (simp_all add: empty_display_def stale_display_def bot_message_def)
  have gone: "channel (run_pending [0, 0] (EnsureQueueSafe_awaited stale_display)) = []"
    by (simp add: EnsureQueueSafe_awaited_eq EnsureQueueSafe_then_def complete_def answer_def
        resume_def issue_def stale_display_def bot_message_def Let_def)
  from EnsureQueueSafe_reconciles [of empty_display] EnsureQueueSafe_reconciles [of stale_display]
    EnsureQueueSafe_reconciles [of lone_display] gone
  show ?thesis by (simp add: none two one st)
qed

text \<open>
  A manager without a handle, on a channel with exactly one pinned message of its own,
  does not take that message as its handle.
\<close>

theorem EnsureQueueSafe_does_not_adopt:
  "map message_id (own_pinned lone_display) = [1] \<and>
   queue_message lone_display = None \<and>
   queue_message (EnsureQueueSafe_awaited lone_display) \<noteq> Some 1"
  by (simp add: EnsureQueueSafe_awaited_eq EnsureQueueSafe_then_def own_pinned_def Let_def
      lone_display_def bot_message_def)

text \<open>
  With a handle to a message that is no longer on the channel, the \<open>edit\<close> that
  \<open>OnQueueUpdate\<close> issues is rejected by the platform. The promise awaited is
  \<open>edit(...).catch()\<close>, and \<open>catch\<close> without a handler passes the rejection on: this
  is one way for the display update awaited by the methods of \<open>HelpQueue\<close> to be
  rejected.
\<close>

lemma stale_handle_edit_rejected:
  "queue_message d = Some i \<Longrightarrow> find (\<lambda>m. message_id m = i) (channel d) = None \<Longrightarrow>
     pending (OnQueueUpdate table_text q ms d) =
       pending d @ [(edit_message i (GetQueueText table_text q ms)
                       [joinLeaveButtons q, notifButtons q], no_continuation)] \<and>
     fst (answer (edit_message i (GetQueueText table_text q ms)
                    [joinLeaveButtons q, notifButtons q]) d) = rejected"
  by (simp add: OnQueueUpdate_def answer_def Let_def)

text \<open>
  Without a handle, \<open>OnQueueUpdate\<close> reaches its \<open>await\<close> with both requests issued
  and none answered: \<open>EnsureQueueSafe()\<close> is not awaited, so its continuation has not
  run when \<open>send\<close> is called.
\<close>

lemma OnQueueUpdate_without_handle:
  "queue_message d = None \<Longrightarrow>
     pending (OnQueueUpdate table_text q ms d) =
       pending d @ [(fetchPinned, then_reconcile),
                    (send_message (GetQueueText table_text q ms)
                       [joinLeaveButtons q, notifButtons q], then_pin)] \<and>
     history (OnQueueUpdate table_text q ms d) =
       history d @ [Issued fetchPinned,
                    Issued (send_message (GetQueueText table_text q ms)
                       [joinLeaveButtons q, notifButtons q])] \<and>
     queue_message (OnQueueUpdate table_text q ms d) = None \<and>
     channel (OnQueueUpdate table_text q ms d) = channel d"
  by (simp add: OnQueueUpdate_def EnsureQueueSafe_def Let_def)

lemma stale_start:
  "OnQueueUpdate no_table algo_help (queue algo_help) stale_display =
     stale_display\<lparr>pending := [(fetchPinned, then_reconcile), (algo_help_post, then_pin)],
                   history := [Issued fetchPinned, Issued algo_help_post]\<rparr>"
  by (simp add: OnQueueUpdate_def EnsureQueueSafe_def issue_def algo_help_post_def
      stale_display_def Let_def)

text \<open>
  C8, on a channel with two pinned messages of the client's user and no handle. When
  \<open>OnQueueUpdate\<close> suspends, the \<open>send\<close> of the new message has been issued although
  \<open>fetchPinned\<close> is still unanswered. If the platform answers \<open>send\<close> and \<open>pin\<close>
  before \<open>fetchPinned\<close>, the new message is created, pinned and remembered before
  the reconciliation runs; the reconciliation then finds three messages, deletes all
  of them, the new one included, and forgets the handle.
\<close>

theorem OnQueueUpdate_sends_before_reconciled:
  "pending (OnQueueUpdate no_table algo_help (queue algo_help) stale_display) =
     [(fetchPinned, then_reconcile), (algo_help_post, then_pin)] \<and>
   history (OnQueueUpdate no_table algo_help (queue algo_help) stale_display) =
     [Issued fetchPinned, Issued algo_help_post] \<and>
   history (run_pending [1, 1, 0, 0, 0, 0]
             (OnQueueUpdate no_table algo_help (queue algo_help) stale_display)) =
     [Issued fetchPinned, Issued algo_help_post, Answered algo_help_post,
      Issued (pin_message 3), Answered (pin_message 3), Remembered 3,
      Answered fetchPinned, Issued (delete_message 1), Issued (delete_message 2),
      Issued (delete_message 3), Reconciled, Answered (delete_message 1),
      Answered (delete_message 2), Answered (delete_message 3)] \<and>
   channel (run_pending [1, 1, 0, 0, 0, 0]
             (OnQueueUpdate no_table algo_help (queue algo_help) stale_display)) = [] \<and>
   queue_message (run_pending [1, 1, 0, 0, 0, 0]
             (OnQueueUpdate no_table algo_help (queue algo_help) stale_display)) = None"
  unfolding stale_start
  by (simp add: complete_def answer_def resume_def issue_def EnsureQueueSafe_then_def
      algo_help_post_def stale_display_def bot_message_def Let_def)

end
